theory Spec2Isabelle
  imports Main "HOL-Library.Sublist"
begin

section \<open>Python string and path primitives used by the sources\<close>

text \<open>
  The two modules (\<^verbatim>\<open>giza/content/post/latex.py\<close> and \<^verbatim>\<open>giza/content/assets.py\<close>)
  build command lines and file names with a handful of operations of Python's \<^verbatim>\<open>str\<close>
  and of \<^verbatim>\<open>os.path\<close> (the POSIX flavour, \<^verbatim>\<open>posixpath\<close>).  Each is written out
  here as an executable function on \<^typ>\<open>string\<close>.
\<close>

abbreviation bslash :: char where
  "bslash \<equiv> CHR 0x5C"

text \<open>\<^verbatim>\<open>str(n)\<close> for the integers that end up in log messages.\<close>

definition digit_char :: "nat \<Rightarrow> char" where
  "digit_char d = ''0123456789'' ! d"

fun str_of_nat :: "nat \<Rightarrow> string" where
  "str_of_nat n =
     (if n < 10 then [digit_char n] else str_of_nat (n div 10) @ [digit_char (n mod 10)])"

definition str_of_int :: "int \<Rightarrow> string" where
  "str_of_int k = (if k < 0 then CHR ''-'' # str_of_nat (nat (- k)) else str_of_nat (nat k))"

text \<open>
  \<^verbatim>\<open>s.split()\<close>: split at runs of whitespace, no empty fields.  Whitespace is that of
  a byte string: space, tab, newline, carriage return, vertical tab, form feed.
\<close>

definition is_space :: "char \<Rightarrow> bool" where
  "is_space c = (c = CHR '' '' \<or> c = CHR 0x09 \<or> c = CHR 0x0A \<or> c = CHR 0x0B
                 \<or> c = CHR 0x0C \<or> c = CHR 0x0D)"

fun split_ws_from :: "string \<Rightarrow> string \<Rightarrow> string list" where
  "split_ws_from cur [] = (if cur = [] then [] else [cur])"
| "split_ws_from cur (c # cs) =
     (if is_space c
      then (if cur = [] then split_ws_from [] cs else cur # split_ws_from [] cs)
      else split_ws_from (cur @ [c]) cs)"

definition split_ws :: "string \<Rightarrow> string list" where
  "split_ws s = split_ws_from [] s"

text \<open>\<^verbatim>\<open>s.rfind(c)\<close> for a single character: the last index of \<open>c\<close>, or \<open>-1\<close>.\<close>

fun rfind :: "char \<Rightarrow> string \<Rightarrow> int" where
  "rfind c [] = - 1"
| "rfind c (x # xs) =
     (let r = rfind c xs in if 0 \<le> r then r + 1 else if x = c then 0 else - 1)"

text \<open>\<^verbatim>\<open>posixpath.basename\<close>: \<^verbatim>\<open>i = p.rfind('/') + 1; return p[i:]\<close>.\<close>

definition basename :: "string \<Rightarrow> string" where
  "basename p = drop (nat (rfind CHR ''/'' p + 1)) p"

text \<open>
  \<^verbatim>\<open>posixpath.split\<close>: cut after the last slash; trailing slashes are stripped from the
  head unless the head consists of slashes only.
\<close>

definition rstrip_slash :: "string \<Rightarrow> string" where
  "rstrip_slash s = rev (dropWhile (\<lambda>c. c = CHR ''/'') (rev s))"

definition path_split :: "string \<Rightarrow> string \<times> string" where
  "path_split p =
     (let i = nat (rfind CHR ''/'' p + 1);
          head = take i p;
          tail = drop i p
      in if head \<noteq> [] \<and> head \<noteq> replicate (length head) CHR ''/''
         then (rstrip_slash head, tail)
         else (head, tail))"

text \<open>
  \<^verbatim>\<open>posixpath.splitext\<close>: the extension starts at the last dot, provided that dot
  comes after the last slash and is preceded, inside the file name, by a character that
  is not a dot.
\<close>

definition splitext :: "string \<Rightarrow> string \<times> string" where
  "splitext p =
     (let sepIndex = rfind CHR ''/'' p;
          dotIndex = rfind CHR ''.'' p
      in if sepIndex < dotIndex
            \<and> list_ex (\<lambda>c. c \<noteq> CHR ''.'')
                 (take (nat (dotIndex - (sepIndex + 1))) (drop (nat (sepIndex + 1)) p))
         then (take (nat dotIndex) p, drop (nat dotIndex) p)
         else (p, []))"

text \<open>
  \<^verbatim>\<open>posixpath.join\<close>: a component that starts with a slash discards what came before;
  otherwise a slash is inserted unless the path so far is empty or ends in one.
\<close>

definition join2 :: "string \<Rightarrow> string \<Rightarrow> string" where
  "join2 a b =
     (if b \<noteq> [] \<and> hd b = CHR ''/'' then b
      else if a = [] \<or> last a = CHR ''/'' then a @ b
      else a @ ''/'' @ b)"

definition path_join :: "string \<Rightarrow> string list \<Rightarrow> string" where
  "path_join a ps = foldl join2 a ps"

text \<open>
  \<^verbatim>\<open>s.replace(old, new)\<close>: every non-overlapping occurrence of \<open>old\<close>, found from the
  left, is replaced; an empty \<open>old\<close> matches before every character and at the end.
\<close>

function py_replace :: "string \<Rightarrow> string \<Rightarrow> string \<Rightarrow> string" where
  "py_replace old new [] = (if old = [] then new else [])"
| "py_replace old new (c # cs) =
     (if old = [] then new @ c # py_replace old new cs
      else if take (length old) (c # cs) = old
      then new @ py_replace old new (drop (length old) (c # cs))
      else c # py_replace old new cs)"
  by pat_completeness auto
termination
  by (relation "measure (\<lambda>(old, new, s). length s)") auto

section \<open>Rendering a tex file: \<^verbatim>\<open>_render_tex_into_pdf\<close>\<close>

text \<open>
  What the function does to the outside world is returned as a record: the process
  environment after the call (\<^verbatim>\<open>os.environ\<close>, which the function reads and writes), the
  log records it emitted, its calls of \<^verbatim>\<open>subprocess.call\<close> (the argument list, with the
  \<^verbatim>\<open>TEXINPUTS\<close> value the child process inherits), and its calls of \<^verbatim>\<open>copy_if_needed\<close>
  (module \<^verbatim>\<open>giza.tools.files\<close>, outside the sources; only the call is recorded).  The
  value returned by the Python function is \<^verbatim>\<open>None\<close> or \<^verbatim>\<open>False\<close>; an exception raised by
  \<^verbatim>\<open>subprocess.call\<close> (the program could not be started) propagates.
\<close>

datatype level = INFO | WARNING | ERROR

datatype outcome = ReturnNone | ReturnFalse | Raised

datatype call_result = Exited int | OSError

type_synonym environment = "string \<rightharpoonup> string"

record effects =
  ret :: outcome
  environ :: environment
  log :: "(level \<times> string) list"
  procs :: "(string list \<times> string option) list"
  copies :: "(string \<times> string \<times> string) list"

text \<open>Lines 41--47: the \<^verbatim>\<open>pdflatex\<close> command line, or nothing for an unknown format.\<close>

definition pdflatex_cmd :: "string \<Rightarrow> string \<Rightarrow> string \<Rightarrow> string option" where
  "pdflatex_cmd output_format path fn =
     (if output_format = ''dvi''
      then Some (''pdflatex --output-format dvi --interaction batchmode --output-directory ''
                 @ path @ '' '' @ fn)
      else if output_format = ''pdf''
      then Some (''pdflatex --interaction batchmode --output-directory '' @ path @ '' '' @ fn)
      else None)"

text \<open>Lines 49--56: the command sequence.  \<^verbatim>\<open>base_fn[:-4]\<close> drops the last four characters.\<close>

definition render_cmds :: "string \<Rightarrow> string \<Rightarrow> string \<Rightarrow> string list option" where
  "render_cmds output_format path fn =
     (case pdflatex_cmd output_format path fn of
        None \<Rightarrow> None
      | Some pdflatex \<Rightarrow>
          (let base_fn = basename fn;
               stem = take (length base_fn - 4) base_fn;
               cmds = [pdflatex,
                       ''makeindex -s '' @ path @ ''/python.ist '' @ path @ ''/'' @ stem @ ''.idx '',
                       pdflatex,
                       pdflatex]
           in Some (if output_format = ''dvi''
                    then cmds @ [''cd '' @ path @ ''; dvipdf '' @ stem @ ''.dvi'']
                    else cmds)))"

definition info_msg :: "nat \<Rightarrow> nat \<Rightarrow> string \<Rightarrow> int \<Rightarrow> string" where
  "info_msg idx n base_fn r =
     ''pdf completed rendering stage '' @ str_of_nat idx @ '' of '' @ str_of_nat n
       @ '' successfully ('' @ base_fn @ '', '' @ str_of_int r @ '').''"

definition warning_msg :: "string \<Rightarrow> string" where
  "warning_msg base_fn =
     ''pdf build encountered error early on '' @ base_fn @ '', continuing cautiously.''"

definition error_msg :: "string \<Rightarrow> string" where
  "error_msg base_fn =
     ''pdf build encountered error running pdflatex, investigate on '' @ base_fn
       @ ''. terminating''"

text \<open>
  Lines 59--73: the loop over \<^verbatim>\<open>enumerate(cmds)\<close>.  \<open>call idx args\<close> is what
  \<^verbatim>\<open>subprocess.call\<close> does at the \<open>idx\<close>-th iteration (0-based).  The result is the
  early return if there is one (\<open>None\<close> when the loop runs to its end), the commands
  started and the log records, in order.
\<close>

fun run_cmds ::
  "(nat \<Rightarrow> string list \<Rightarrow> call_result) \<Rightarrow> string \<Rightarrow> nat \<Rightarrow> string option \<Rightarrow> nat \<Rightarrow> string list
     \<Rightarrow> outcome option \<times> (string list \<times> string option) list \<times> (level \<times> string) list"
where
  "run_cmds call base_fn n texinputs idx [] = (None, [], [])"
| "run_cmds call base_fn n texinputs idx (cmd # cmds) =
     (let p = (split_ws cmd, texinputs) in
      case call idx (split_ws cmd) of
        OSError \<Rightarrow> (Some Raised, [p], [])
      | Exited r \<Rightarrow>
          if r = 0
          then (case run_cmds call base_fn n texinputs (Suc idx) cmds of
                  (res, ps, ls) \<Rightarrow> (res, p # ps, (INFO, info_msg idx n base_fn r) # ls))
          else if idx \<le> 1
          then (case run_cmds call base_fn n texinputs (Suc idx) cmds of
                  (res, ps, ls) \<Rightarrow> (res, p # ps, (WARNING, warning_msg base_fn) # ls))
          else (Some ReturnFalse, [p], [(ERROR, error_msg base_fn), (ERROR, cmd)]))"

definition render_tex_into_pdf ::
  "(nat \<Rightarrow> string list \<Rightarrow> call_result) \<Rightarrow> string \<Rightarrow> string \<Rightarrow> string \<Rightarrow> string \<Rightarrow> environment
     \<Rightarrow> effects"
where
  "render_tex_into_pdf call fn deployed_path path output_format env =
     (let env' = env(''TEXINPUTS'' \<mapsto> ''.:'' @ path @ '':'') in
      case render_cmds output_format path fn of
        None \<Rightarrow>
          \<lparr>ret = ReturnNone, environ = env',
           log = [(ERROR, ''not rendering pdf because '' @ output_format
                            @ '' is not an output format'')],
           procs = [], copies = []\<rparr>
      | Some cmds \<Rightarrow>
          (case run_cmds call (basename fn) (length cmds) (env' ''TEXINPUTS'') 0 cmds of
             (Some r, ps, ls) \<Rightarrow>
               \<lparr>ret = r, environ = env', log = ls, procs = ps, copies = []\<rparr>
           | (None, ps, ls) \<Rightarrow>
               \<lparr>ret = ReturnNone, environ = env', log = ls, procs = ps,
                copies = [(fst (splitext fn) @ ''.pdf'', deployed_path, ''pdf'')]\<rparr>))"

section \<open>Synchronising an asset repository: \<^verbatim>\<open>assets_setup\<close>\<close>

text \<open>
  \<^verbatim>\<open>GitRepo\<close> (module \<^verbatim>\<open>giza.git\<close>) is a collaborator outside the sources; the model
  records which of its methods is called and with what.  \<open>Pull p b\<close> stands for
  \<^verbatim>\<open>GitRepo(p).pull(branch=b)\<close> and \<open>Clone base repo name b\<close> for
  \<^verbatim>\<open>GitRepo(base).clone(repo, repo_path=name, branch=b)\<close>.  \<open>path_exists\<close> is
  \<^verbatim>\<open>os.path.exists\<close> on the current file system, and \<open>git c\<close> tells whether the git
  operation \<open>c\<close> returns normally (otherwise it raises, and the exception leaves
  \<^verbatim>\<open>assets_setup\<close> before the log call).
\<close>

datatype git_call = Pull string string | Clone string string string string

datatype sync_outcome = Synced | SyncRaised

record sync_effects =
  sync_ret :: sync_outcome
  git_calls :: "git_call list"
  sync_log :: "(level \<times> string) list"

definition assets_setup ::
  "(string \<Rightarrow> bool) \<Rightarrow> (git_call \<Rightarrow> bool) \<Rightarrow> string \<Rightarrow> string \<Rightarrow> string \<Rightarrow> sync_effects"
where
  "assets_setup path_exists git path branch repo =
     (if path_exists path
      then (let c = Pull path branch in
            if git c
            then \<lparr>sync_ret = Synced, git_calls = [c],
                  sync_log = [(INFO, ''updated '' @ path @ '' repository'')]\<rparr>
            else \<lparr>sync_ret = SyncRaised, git_calls = [c], sync_log = []\<rparr>)
      else (case path_split path of
              (base, name) \<Rightarrow>
                (let c = Clone base repo name branch in
                 if git c
                 then \<lparr>sync_ret = Synced, git_calls = [c],
                       sync_log = [(INFO, ''cloned '' @ branch @ '' branch from repo '' @ repo)]\<rparr>
                 else \<lparr>sync_ret = SyncRaised, git_calls = [c], sync_log = []\<rparr>)))"

section \<open>Building the task graph: \<^verbatim>\<open>pdf_tasks\<close>\<close>

subsection \<open>Configuration, artifacts and tasks\<close>

text \<open>
  An entry of \<^verbatim>\<open>conf.system.files.data.pdfs\<close> is read through its keys \<^verbatim>\<open>output\<close> and
  \<^verbatim>\<open>tag\<close>; \<open>attrs\<close> holds whatever else it declares (the edition constraints that
  \<^verbatim>\<open>edition_check\<close> looks at).  After \<^verbatim>\<open>i = i.dict()\<close> the loop body adds six keys to
  the dictionary, which gives the second record.
\<close>

record artifact =
  "output" :: string
  tag :: string
  attrs :: "(string \<times> string) list"

record descriptor = artifact +
  source :: string
  processed :: string
  pdf :: string
  deployed :: string
  link :: string
  path :: string

text \<open>
  The fields of \<^verbatim>\<open>conf\<close> and \<^verbatim>\<open>sconf\<close> that \<^verbatim>\<open>pdf_tasks\<close> reads.  \<open>pdfs\<close> is \<open>None\<close>
  when \<^verbatim>\<open>'pdfs' not in conf.system.files.data\<close>, \<open>project_edition\<close> is \<open>None\<close> when
  \<^verbatim>\<open>'edition' not in conf.project\<close>, and \<open>tags\<close> is \<open>None\<close> when \<^verbatim>\<open>'tags' not in sconf\<close>.
\<close>

record conf =
  pdfs :: "artifact list option"
  project_url :: string
  project_tag :: string
  project_name :: string
  project_edition :: "string option"
  projectroot :: string
  branch_output :: string
  public_site_output :: string
  current_branch :: string

record sconf =
  builder :: string
  tags :: "string list option"

datatype job = Render_tex_into_pdf | Create_link

record task =
  job :: job
  args :: "string list"
  dependency :: "string option"
  target :: "string option"

text \<open>The \<^verbatim>\<open>regex\<close> argument of \<^verbatim>\<open>process_page\<close>: one (pattern, substitution) pair or a list.\<close>

datatype regex_arg = Rule "string \<times> string" | Rules "(string \<times> string) list"

text \<open>
  A unit of work in a group: a task filled in by \<^verbatim>\<open>pdf_tasks\<close> itself, or the unit
  that a call of \<^verbatim>\<open>process_page\<close> adds, identified by the arguments of the call
  (\<^verbatim>\<open>fn\<close>, \<^verbatim>\<open>output_fn\<close>, \<^verbatim>\<open>regex\<close>, \<^verbatim>\<open>builder\<close>, \<^verbatim>\<open>copy\<close>).
\<close>

datatype work_unit = Task task | Process_page string string regex_arg string string

datatype node = App "node list" | Leaf work_unit

record groups =
  process_app :: "work_unit list"
  render_app :: "work_unit list"
  migrate_app :: "work_unit list"
  link_app :: "work_unit list"

text \<open>
  Modelled from the spec: \<^verbatim>\<open>process_page\<close> (module \<^verbatim>\<open>giza.tools.transformation\<close>) is not
  among the sources.  By section 4.4 of the specification a call appends one transform
  unit to the group it is given; the unit is recorded with the arguments of the call.
\<close>

definition process_page ::
  "string \<Rightarrow> string \<Rightarrow> regex_arg \<Rightarrow> work_unit list \<Rightarrow> string \<Rightarrow> string \<Rightarrow> work_unit list"
where
  "process_page fn output_fn regex app builder_name copy =
     app @ [Process_page fn output_fn regex builder_name copy]"

subsection \<open>The data of lines 86--120\<close>

text \<open>
  The (pattern, substitution) pairs of \<^verbatim>\<open>tex_regexes\<close>, as the text of the pattern
  (what \<^verbatim>\<open>re.compile\<close> is given) and the replacement string.
\<close>

definition tex_regexes :: "conf \<Rightarrow> (string \<times> string) list" where
  "tex_regexes conf =
     [(''(index|bfcode)'' @ bslash # ''{(.*)--(.*)'' @ bslash # ''}'',
       bslash # ''1'' @ bslash # ''{'' @ bslash # ''2-'' @ bslash # ''{-'' @ bslash # ''}''
         @ bslash # ''3'' @ bslash # ''}''),
      (bslash # bslash # ''PYGZsq{}'', [CHR 0x27]),
      (bslash # bslash # ''code'' @ bslash
         # ''{/(?!.*{}/|etc|usr|data|var|srv|data|bin|dev|opt|proc|24|private)'',
       bslash # ''code{'' @ project_url conf @ ''/'' @ project_tag conf @ ''/'')]"

definition sty_regex :: "string \<times> string" where
  "sty_regex =
     (bslash # bslash # ''usepackage'' @ bslash # ''[pdftex'' @ bslash # '']'' @ bslash
        # ''{graphicx'' @ bslash # ''}'',
      bslash # ''usepackage{graphicx}'')"

text \<open>Lines 102--107.\<close>

definition latex_dir :: "sconf \<Rightarrow> conf \<Rightarrow> string" where
  "latex_dir sconf conf =
     (case project_edition conf of
        Some edition \<Rightarrow>
          if edition \<noteq> project_name conf
          then path_join (projectroot conf) [branch_output conf, builder sconf @ ''-'' @ edition]
          else path_join (projectroot conf) [branch_output conf, builder sconf]
      | None \<Rightarrow> path_join (projectroot conf) [branch_output conf, builder sconf])"

definition deploy_path :: "conf \<Rightarrow> string" where
  "deploy_path conf = path_join (projectroot conf) [public_site_output conf]"

text \<open>Line 110: \<^verbatim>\<open>'tags' in sconf and "offset" in sconf.tags\<close>.\<close>

definition offset :: "sconf \<Rightarrow> bool" where
  "offset sconf = (case tags sconf of None \<Rightarrow> False | Some ts \<Rightarrow> ''offset'' \<in> set ts)"

definition output_format :: "sconf \<Rightarrow> string" where
  "output_format sconf = (if offset sconf then ''dvi'' else ''pdf'')"

subsection \<open>The loop body, lines 123--155\<close>

definition tagged_name :: "artifact \<Rightarrow> string" where
  "tagged_name i = take (length (output i) - 4) (output i) @ ''-'' @ tag i"

definition deploy_fn :: "conf \<Rightarrow> artifact \<Rightarrow> string" where
  "deploy_fn conf i = tagged_name i @ ''-'' @ current_branch conf @ ''.pdf''"

definition link_name :: "conf \<Rightarrow> artifact \<Rightarrow> string" where
  "link_name conf i = py_replace (''-'' @ current_branch conf) [] (deploy_fn conf i)"

definition artifact_paths :: "string \<Rightarrow> string \<Rightarrow> conf \<Rightarrow> artifact \<Rightarrow> descriptor" where
  "artifact_paths ldir dpath conf i =
     \<lparr>output = output i, tag = tag i, attrs = attrs i,
      source = path_join ldir [output i],
      processed = path_join ldir [tagged_name i @ ''.tex''],
      pdf = path_join ldir [tagged_name i @ ''.pdf''],
      deployed = path_join dpath [deploy_fn conf i],
      link = path_join dpath [link_name conf i],
      path = ldir\<rparr>"

definition render_task :: "descriptor \<Rightarrow> string \<Rightarrow> task" where
  "render_task i fmt =
     \<lparr>job = Render_tex_into_pdf, args = [processed i, deployed i, path i, fmt],
      dependency = None, target = Some (pdf i)\<rparr>"

definition link_task :: "string \<Rightarrow> descriptor \<Rightarrow> task" where
  "link_task dfn i =
     \<lparr>job = Create_link, args = [dfn, link i],
      dependency = Some (deployed i), target = Some (link i)\<rparr>"

text \<open>Lines 150--155: what the guarded block adds to \<^verbatim>\<open>link_app\<close> for the dictionary \<open>i\<close>.\<close>

definition link_units :: "string \<Rightarrow> descriptor \<Rightarrow> work_unit list" where
  "link_units dfn i = (if link i \<noteq> deployed i then [Task (link_task dfn i)] else [])"

text \<open>
  \<open>edition_check\<close> is the external predicate of \<^verbatim>\<open>giza.content.helper\<close>; an artifact
  is skipped when it answers \<^verbatim>\<open>False\<close>.
\<close>

definition pdf_step ::
  "(artifact \<Rightarrow> conf \<Rightarrow> bool) \<Rightarrow> conf \<Rightarrow> string \<Rightarrow> string \<Rightarrow> string \<Rightarrow> groups \<Rightarrow> artifact \<Rightarrow> groups"
where
  "pdf_step edition_check conf ldir dpath fmt g a =
     (if \<not> edition_check a conf then g
      else
        (let i = artifact_paths ldir dpath conf a;
             g1 = g\<lparr>process_app :=
                      process_page (source i) (processed i) (Rules (tex_regexes conf))
                        (process_app g) ''tex-munge'' ''ifNeeded''\<rparr>;
             g2 = g1\<lparr>render_app := render_app g1 @ [Task (render_task i fmt)]\<rparr>
         in g2\<lparr>link_app := link_app g2 @ link_units (deploy_fn conf a) i\<rparr>))"

subsection \<open>The whole function\<close>

text \<open>
  \<open>pdf_groups\<close> is the state of the four child apps when the loop has finished;
  \<open>pdf_tasks\<close> is the queue of the application object afterwards: unchanged when the
  configuration has no \<^verbatim>\<open>pdfs\<close>, and with the four groups appended, in the order of the
  four \<^verbatim>\<open>app.add('app')\<close> calls, otherwise.
\<close>

definition initial_groups :: "sconf \<Rightarrow> conf \<Rightarrow> groups" where
  "initial_groups sconf conf =
     \<lparr>process_app =
        (if offset sconf
         then (let sty_file = path_join (latex_dir sconf conf) [''sphinx.sty'']
               in process_page sty_file sty_file (Rule sty_regex) [] ''sphinx-latex'' ''ifNeeded'')
         else []),
      render_app = [], migrate_app = [], link_app = []\<rparr>"

definition pdf_groups :: "(artifact \<Rightarrow> conf \<Rightarrow> bool) \<Rightarrow> sconf \<Rightarrow> conf \<Rightarrow> artifact list \<Rightarrow> groups" where
  "pdf_groups edition_check sconf conf arts =
     foldl (pdf_step edition_check conf (latex_dir sconf conf) (deploy_path conf)
              (output_format sconf))
       (initial_groups sconf conf) arts"

definition pdf_tasks ::
  "(artifact \<Rightarrow> conf \<Rightarrow> bool) \<Rightarrow> sconf \<Rightarrow> conf \<Rightarrow> node list \<Rightarrow> node list"
where
  "pdf_tasks edition_check sconf conf app =
     (case pdfs conf of
        None \<Rightarrow> app
      | Some arts \<Rightarrow>
          (let g = pdf_groups edition_check sconf conf arts
           in app @ [App (map Leaf (process_app g)), App (map Leaf (render_app g)),
                     App (map Leaf (migrate_app g)), App (map Leaf (link_app g))]))"

subsection \<open>A sample configuration\<close>

text \<open>
  A configuration with two declared artifacts on branch \<open>release\<close>, a build variant tagged
  \<open>offset\<close>, and two edition filters; the theorems below are instantiated with them.
\<close>

definition sample_conf :: conf where
  "sample_conf =
     \<lparr>pdfs = Some [\<lparr>output = ''manual.tex'', tag = ''v1'', attrs = []\<rparr>,
                   \<lparr>output = ''guide.tex'', tag = ''v1'', attrs = [(''edition'', ''cloud'')]\<rparr>],
      project_url = ''http://docs.example.org'', project_tag = ''v1'',
      project_name = ''manual'', project_edition = None,
      projectroot = ''/r'', branch_output = ''build/release'',
      public_site_output = ''build/public/release'', current_branch = ''release''\<rparr>"

definition sample_sconf :: sconf where
  "sample_sconf = \<lparr>builder = ''latex'', tags = Some [''offset'']\<rparr>"

definition accept_all :: "artifact \<Rightarrow> conf \<Rightarrow> bool" where
  "accept_all a c = True"

definition no_attrs :: "artifact \<Rightarrow> conf \<Rightarrow> bool" where
  "no_attrs a c = (attrs a = [])"

definition empty_groups :: groups where
  "empty_groups = \<lparr>process_app = [], render_app = [], migrate_app = [], link_app = []\<rparr>"

section \<open>Properties of the render sequence\<close>

subsection \<open>The loop over the commands\<close>

lemma run_cmds_first_proc:
  "\<exists>ps. fst (snd (run_cmds call b n t idx (c # cs))) = (split_ws c, t) # ps"
  by (simp add: Let_def split: call_result.splits prod.splits)

lemma run_cmds_tolerant_step:
  "call idx (split_ws cmd) = Exited k \<Longrightarrow> k \<noteq> 0 \<Longrightarrow> idx \<le> 1 \<Longrightarrow>
   run_cmds call b n t idx (cmd # cmds) =
     (case run_cmds call b n t (Suc idx) cmds of
        (res, ps, ls) \<Rightarrow> (res, (split_ws cmd, t) # ps, (WARNING, warning_msg b) # ls))"
  by (simp add: Let_def)

lemma run_cmds_fatal:
  assumes "i < length cmds" and "2 \<le> idx + i"
    and "\<forall>j<i. \<exists>r. call (idx + j) (split_ws (cmds ! j)) = Exited r \<and> (2 \<le> idx + j \<longrightarrow> r = 0)"
    and "call (idx + i) (split_ws (cmds ! i)) = Exited k" and "k \<noteq> 0"
  shows "fst (run_cmds call b n t idx cmds) = Some ReturnFalse
       \<and> map fst (fst (snd (run_cmds call b n t idx cmds))) = map split_ws (take (Suc i) cmds)"
  using assms
proof (induction cmds arbitrary: idx i)
  case Nil
  then show ?case by simp
next
  case (Cons cmd cmds)
  show ?case
  proof (cases i)
    case 0
    with Cons.prems show ?thesis by (simp add: Let_def)
  next
    case (Suc i')
    from Cons.prems(3) Suc obtain r where
      r: "call idx (split_ws cmd) = Exited r" "2 \<le> idx \<longrightarrow> r = 0"
      by force
    have later: "\<forall>j<i'. \<exists>r. call (Suc idx + j) (split_ws (cmds ! j)) = Exited r
                   \<and> (2 \<le> Suc idx + j \<longrightarrow> r = 0)"
    proof (intro allI impI)
      fix j assume "j < i'"
      then have "Suc j < i" using Suc by simp
      with Cons.prems(3) show "\<exists>r. call (Suc idx + j) (split_ws (cmds ! j)) = Exited r
                   \<and> (2 \<le> Suc idx + j \<longrightarrow> r = 0)"
        by force
    qed
    have ih: "fst (run_cmds call b n t (Suc idx) cmds) = Some ReturnFalse
       \<and> map fst (fst (snd (run_cmds call b n t (Suc idx) cmds))) = map split_ws (take (Suc i') cmds)"
      using Cons.IH [of i' "Suc idx"] Cons.prems Suc later by simp
    show ?thesis
      using r ih Suc by (cases "r = 0") (auto simp: Let_def split: prod.splits)
  qed
qed

lemma run_cmds_tolerant:
  assumes "Suc i < length cmds" and "idx + i \<le> 1"
    and "\<forall>j<i. \<exists>r. call (idx + j) (split_ws (cmds ! j)) = Exited r"
    and "call (idx + i) (split_ws (cmds ! i)) = Exited k" and "k \<noteq> 0"
  shows "i < length (snd (snd (run_cmds call b n t idx cmds)))
       \<and> snd (snd (run_cmds call b n t idx cmds)) ! i = (WARNING, warning_msg b)
       \<and> Suc i < length (fst (snd (run_cmds call b n t idx cmds)))
       \<and> fst (snd (run_cmds call b n t idx cmds)) ! Suc i = (split_ws (cmds ! Suc i), t)"
  using assms
proof (induction cmds arbitrary: idx i)
  case Nil
  then show ?case by simp
next
  case (Cons cmd cmds)
  show ?case
  proof (cases i)
    case 0
    from Cons.prems(1) 0 obtain c cs where cmds: "cmds = c # cs"
      by (cases cmds) auto
    obtain res ps ls where rest: "run_cmds call b n t (Suc idx) (c # cs) = (res, ps, ls)"
      by (cases "run_cmds call b n t (Suc idx) (c # cs)") auto
    obtain ps' where "fst (snd (run_cmds call b n t (Suc idx) (c # cs))) = (split_ws c, t) # ps'"
      using run_cmds_first_proc by blast
    with rest have ps: "ps = (split_ws c, t) # ps'" by simp
    have "run_cmds call b n t idx (cmd # c # cs)
            = (res, (split_ws cmd, t) # ps, (WARNING, warning_msg b) # ls)"
      using Cons.prems(2,4,5) 0 rest run_cmds_tolerant_step [of call idx cmd k b n t "c # cs"]
      by simp
    with 0 cmds ps show ?thesis by simp
  next
    case (Suc i')
    from Cons.prems(3) Suc obtain r where r: "call idx (split_ws cmd) = Exited r"
      by force
    have idx: "idx \<le> 1" using Cons.prems(2) by simp
    have later: "\<forall>j<i'. \<exists>r. call (Suc idx + j) (split_ws (cmds ! j)) = Exited r"
    proof (intro allI impI)
      fix j assume "j < i'"
      then have "Suc j < i" using Suc by simp
      with Cons.prems(3) show "\<exists>r. call (Suc idx + j) (split_ws (cmds ! j)) = Exited r"
        by force
    qed
    have ih: "i' < length (snd (snd (run_cmds call b n t (Suc idx) cmds)))
       \<and> snd (snd (run_cmds call b n t (Suc idx) cmds)) ! i' = (WARNING, warning_msg b)
       \<and> Suc i' < length (fst (snd (run_cmds call b n t (Suc idx) cmds)))
       \<and> fst (snd (run_cmds call b n t (Suc idx) cmds)) ! Suc i' = (split_ws (cmds ! Suc i'), t)"
      using Cons.IH [of i' "Suc idx"] Cons.prems Suc later by simp
    show ?thesis
      using r ih Suc idx by (cases "r = 0") (auto simp: Let_def split: prod.splits)
  qed
qed

lemma run_cmds_success:
  assumes "\<forall>j<length cmds. \<exists>r. call (idx + j) (split_ws (cmds ! j)) = Exited r \<and> (2 \<le> idx + j \<longrightarrow> r = 0)"
  shows "fst (run_cmds call b n t idx cmds) = None
       \<and> fst (snd (run_cmds call b n t idx cmds)) = map (\<lambda>c. (split_ws c, t)) cmds"
  using assms
proof (induction cmds arbitrary: idx)
  case Nil
  then show ?case by simp
next
  case (Cons cmd cmds)
  from Cons.prems obtain r where r: "call idx (split_ws cmd) = Exited r" "2 \<le> idx \<longrightarrow> r = 0"
    by force
  have later: "\<forall>j<length cmds. \<exists>r. call (Suc idx + j) (split_ws (cmds ! j)) = Exited r
                 \<and> (2 \<le> Suc idx + j \<longrightarrow> r = 0)"
  proof (intro allI impI)
    fix j assume "j < length cmds"
    then have "Suc j < length (cmd # cmds)" by simp
    with Cons.prems show "\<exists>r. call (Suc idx + j) (split_ws (cmds ! j)) = Exited r
                 \<and> (2 \<le> Suc idx + j \<longrightarrow> r = 0)"
      by force
  qed
  show ?case
    using r Cons.IH [OF later] by (cases "r = 0") (auto simp: Let_def split: prod.splits)
qed


lemma run_cmds_texinputs:
  "map snd (fst (snd (run_cmds call b n t idx cmds)))
     = replicate (length (fst (snd (run_cmds call b n t idx cmds)))) t"
proof (induction cmds arbitrary: idx)
  case Nil
  then show ?case by simp
next
  case (Cons cmd cmds)
  show ?case
    using Cons.IH [of "Suc idx"]
    by (auto simp: Let_def split: call_result.splits prod.splits)
qed

lemma render_cmds_Some:
  assumes "render_cmds fmt dir fn = Some cmds"
  shows "(fmt = ''dvi'' \<and> length cmds = 5) \<or> (fmt = ''pdf'' \<and> length cmds = 4)"
  using assms
  by (auto simp: render_cmds_def pdflatex_cmd_def Let_def split: if_splits)

lemma render_effects_Some:
  assumes "render_cmds fmt dir fn = Some cmds"
  shows "procs (render_tex_into_pdf call fn dp dir fmt env)
           = fst (snd (run_cmds call (basename fn) (length cmds) (Some (''.:'' @ dir @ '':'')) 0 cmds))"
    and "log (render_tex_into_pdf call fn dp dir fmt env)
           = snd (snd (run_cmds call (basename fn) (length cmds) (Some (''.:'' @ dir @ '':'')) 0 cmds))"
    and "ret (render_tex_into_pdf call fn dp dir fmt env)
           = (case fst (run_cmds call (basename fn) (length cmds) (Some (''.:'' @ dir @ '':'')) 0 cmds) of
                None \<Rightarrow> ReturnNone | Some r \<Rightarrow> r)"
    and "copies (render_tex_into_pdf call fn dp dir fmt env)
           = (case fst (run_cmds call (basename fn) (length cmds) (Some (''.:'' @ dir @ '':'')) 0 cmds) of
                None \<Rightarrow> [(fst (splitext fn) @ ''.pdf'', dp, ''pdf'')] | Some r \<Rightarrow> [])"
  using assms
  by (auto simp: render_tex_into_pdf_def Let_def split: prod.splits option.splits)

subsection \<open>Severity by position\<close>

text \<open>
  Claim C1.  Let the command sequence run up to its \<open>i\<close>-th command (0-based) without
  a fatal failure before it, and let that command exit with a non-zero status.  If it is
  the first or the second command (\<open>i \<le> 1\<close>), the \<open>i\<close>-th log record is the warning and
  the next command is started.  If it is the third or a later one (\<open>2 \<le> i\<close>), the
  function returns \<^verbatim>\<open>False\<close>, the commands started are exactly those up to and
  including the failing one, and \<^verbatim>\<open>copy_if_needed\<close> is not called.
\<close>

theorem render_failure_policy:
  assumes cmds: "render_cmds fmt dir fn = Some cmds"
    and i: "i < length cmds"
    and before: "\<forall>j<i. \<exists>r. call j (split_ws (cmds ! j)) = Exited r \<and> (2 \<le> j \<longrightarrow> r = 0)"
    and at: "call i (split_ws (cmds ! i)) = Exited k"
    and k: "k \<noteq> 0"
    and e: "e = render_tex_into_pdf call fn deployed_path dir fmt env"
  shows "(i \<le> 1 \<longrightarrow>
            i < length (log e) \<and> log e ! i = (WARNING, warning_msg (basename fn))
          \<and> Suc i < length (procs e) \<and> fst (procs e ! Suc i) = split_ws (cmds ! Suc i))
       \<and> (2 \<le> i \<longrightarrow>
            ret e = ReturnFalse \<and> map fst (procs e) = map split_ws (take (Suc i) cmds)
          \<and> copies e = [])"
proof (intro conjI impI)
  let ?run = "run_cmds call (basename fn) (length cmds) (Some (''.:'' @ dir @ '':'')) 0 cmds"
  have len: "4 \<le> length cmds"
    using render_cmds_Some [OF cmds] by auto
  {
    assume early: "i \<le> 1"
    have b: "\<forall>j<i. \<exists>r. call (0 + j) (split_ws (cmds ! j)) = Exited r"
      using before by auto
    have "i < length (snd (snd ?run)) \<and> snd (snd ?run) ! i = (WARNING, warning_msg (basename fn))
        \<and> Suc i < length (fst (snd ?run))
        \<and> fst (snd ?run) ! Suc i = (split_ws (cmds ! Suc i), Some (''.:'' @ dir @ '':''))"
      using run_cmds_tolerant [of i cmds 0 call k] early len b at k by simp
    then show "i < length (log e)" "log e ! i = (WARNING, warning_msg (basename fn))"
      "Suc i < length (procs e)" "fst (procs e ! Suc i) = split_ws (cmds ! Suc i)"
      by (simp_all add: e render_effects_Some [OF cmds])
  }
  {
    assume late: "2 \<le> i"
    have b: "\<forall>j<i. \<exists>r. call (0 + j) (split_ws (cmds ! j)) = Exited r \<and> (2 \<le> 0 + j \<longrightarrow> r = 0)"
      using before by auto
    have "fst ?run = Some ReturnFalse
        \<and> map fst (fst (snd ?run)) = map split_ws (take (Suc i) cmds)"
      using run_cmds_fatal [of i cmds 0 call k] late i b at k by simp
    then show "ret e = ReturnFalse" "map fst (procs e) = map split_ws (take (Suc i) cmds)"
      "copies e = []"
      by (simp_all add: e render_effects_Some [OF cmds])
  }
qed

lemma render_cmds_pdf_example:
  "render_cmds ''pdf'' ''out'' ''out/m-v1.tex'' =
     Some [''pdflatex --interaction batchmode --output-directory out out/m-v1.tex'',
           ''makeindex -s out/python.ist out/m-v1.idx '',
           ''pdflatex --interaction batchmode --output-directory out out/m-v1.tex'',
           ''pdflatex --interaction batchmode --output-directory out out/m-v1.tex'']"
  by (simp add: render_cmds_def pdflatex_cmd_def basename_def Let_def)

theorem render_failure_policy_witness:
  "log (render_tex_into_pdf (\<lambda>i a. Exited (if i = 1 \<or> i = 3 then 1 else 0))
          ''out/m-v1.tex'' ''pub/m-v1-master.pdf'' ''out'' ''pdf'' Map.empty) ! 1
     = (WARNING, ''pdf build encountered error early on m-v1.tex, continuing cautiously.'')
   \<and> 2 < length (procs (render_tex_into_pdf (\<lambda>i a. Exited (if i = 1 \<or> i = 3 then 1 else 0))
          ''out/m-v1.tex'' ''pub/m-v1-master.pdf'' ''out'' ''pdf'' Map.empty))
   \<and> ret (render_tex_into_pdf (\<lambda>i a. Exited (if i = 1 \<or> i = 3 then 1 else 0))
          ''out/m-v1.tex'' ''pub/m-v1-master.pdf'' ''out'' ''pdf'' Map.empty) = ReturnFalse
   \<and> copies (render_tex_into_pdf (\<lambda>i a. Exited (if i = 1 \<or> i = 3 then 1 else 0))
          ''out/m-v1.tex'' ''pub/m-v1-master.pdf'' ''out'' ''pdf'' Map.empty) = []"
proof -
  let ?call = "\<lambda>(i::nat) (a::string list). Exited (if i = 1 \<or> i = 3 then 1 else 0)"
  let ?cmds = "[''pdflatex --interaction batchmode --output-directory out out/m-v1.tex'',
           ''makeindex -s out/python.ist out/m-v1.idx '',
           ''pdflatex --interaction batchmode --output-directory out out/m-v1.tex'',
           ''pdflatex --interaction batchmode --output-directory out out/m-v1.tex'']"
  have b1: "\<forall>j<1. \<exists>r. ?call j (split_ws (?cmds ! j)) = Exited r \<and> (2 \<le> j \<longrightarrow> r = 0)"
    by simp
  have b3: "\<forall>j<3. \<exists>r. ?call j (split_ws (?cmds ! j)) = Exited r \<and> (2 \<le> j \<longrightarrow> r = 0)"
    by simp
  have a1: "?call 1 (split_ws (?cmds ! 1)) = Exited 1" by simp
  have a3: "?call 3 (split_ws (?cmds ! 3)) = Exited 1" by simp
  note early = render_failure_policy [OF render_cmds_pdf_example _ b1 a1 _ refl,
      of "''pub/m-v1-master.pdf''" Map.empty]
  note late = render_failure_policy [OF render_cmds_pdf_example _ b3 a3 _ refl,
      of "''pub/m-v1-master.pdf''" Map.empty]
  from early late show ?thesis
    by (simp add: warning_msg_def basename_def)
qed

subsection \<open>The command sequence\<close>

text \<open>
  Claim C2, as the code has it.  The sequence has four commands for \<open>pdf\<close>
  (\<^verbatim>\<open>pdflatex\<close>, \<^verbatim>\<open>makeindex\<close>, \<^verbatim>\<open>pdflatex\<close>, \<^verbatim>\<open>pdflatex\<close>) and five for \<open>dvi\<close>: the same
  four with \<^verbatim>\<open>--output-format dvi\<close>, followed by one extra final step.  When every command
  exits with status 0 the function starts four, respectively five, processes.
\<close>

theorem render_cmds_shape:
  "render_cmds ''pdf'' dir fn =
     Some [''pdflatex --interaction batchmode --output-directory '' @ dir @ '' '' @ fn,
           ''makeindex -s '' @ dir @ ''/python.ist '' @ dir @ ''/''
             @ take (length (basename fn) - 4) (basename fn) @ ''.idx '',
           ''pdflatex --interaction batchmode --output-directory '' @ dir @ '' '' @ fn,
           ''pdflatex --interaction batchmode --output-directory '' @ dir @ '' '' @ fn]
   \<and> map_option butlast (render_cmds ''dvi'' dir fn) =
     Some [''pdflatex --output-format dvi --interaction batchmode --output-directory ''
             @ dir @ '' '' @ fn,
           ''makeindex -s '' @ dir @ ''/python.ist '' @ dir @ ''/''
             @ take (length (basename fn) - 4) (basename fn) @ ''.idx '',
           ''pdflatex --output-format dvi --interaction batchmode --output-directory ''
             @ dir @ '' '' @ fn,
           ''pdflatex --output-format dvi --interaction batchmode --output-directory ''
             @ dir @ '' '' @ fn]
   \<and> map_option length (render_cmds ''pdf'' dir fn) = Some 4
   \<and> map_option length (render_cmds ''dvi'' dir fn) = Some 5
   \<and> length (procs (render_tex_into_pdf (\<lambda>idx a. Exited 0) fn deployed_path dir ''pdf'' env)) = 4
   \<and> length (procs (render_tex_into_pdf (\<lambda>idx a. Exited 0) fn deployed_path dir ''dvi'' env)) = 5"
proof -
  have pdf: "render_cmds ''pdf'' dir fn =
     Some [''pdflatex --interaction batchmode --output-directory '' @ dir @ '' '' @ fn,
           ''makeindex -s '' @ dir @ ''/python.ist '' @ dir @ ''/''
             @ take (length (basename fn) - 4) (basename fn) @ ''.idx '',
           ''pdflatex --interaction batchmode --output-directory '' @ dir @ '' '' @ fn,
           ''pdflatex --interaction batchmode --output-directory '' @ dir @ '' '' @ fn]"
    by (simp add: render_cmds_def pdflatex_cmd_def Let_def)
  obtain final where dvi: "render_cmds ''dvi'' dir fn =
     Some [''pdflatex --output-format dvi --interaction batchmode --output-directory ''
             @ dir @ '' '' @ fn,
           ''makeindex -s '' @ dir @ ''/python.ist '' @ dir @ ''/''
             @ take (length (basename fn) - 4) (basename fn) @ ''.idx '',
           ''pdflatex --output-format dvi --interaction batchmode --output-directory ''
             @ dir @ '' '' @ fn,
           ''pdflatex --output-format dvi --interaction batchmode --output-directory ''
             @ dir @ '' '' @ fn,
           final]"
    by (simp add: render_cmds_def pdflatex_cmd_def Let_def)
  have ok: "\<And>cmds. \<forall>j<length cmds. \<exists>r. (\<lambda>idx a. Exited 0) (0 + j) (split_ws (cmds ! j)) = Exited r
              \<and> (2 \<le> 0 + j \<longrightarrow> r = 0)"
    by simp
  have run: "\<And>cmds b n t. length (fst (snd (run_cmds (\<lambda>idx a. Exited 0) b n t 0 cmds))) = length cmds"
    using run_cmds_success [OF ok] by simp
  have p4: "length (procs (render_tex_into_pdf (\<lambda>idx a. Exited 0) fn deployed_path dir ''pdf'' env)) = 4"
    unfolding render_effects_Some(1) [OF pdf] run by simp
  have p5: "length (procs (render_tex_into_pdf (\<lambda>idx a. Exited 0) fn deployed_path dir ''dvi'' env)) = 5"
    unfolding render_effects_Some(1) [OF dvi] run by simp
  show ?thesis
    using pdf dvi p4 p5 by simp
qed

text \<open>The lengths three and four of the claim as stated are not those of the code.\<close>

theorem render_cmds_length_counterexample:
  "map_option length (render_cmds ''pdf'' ''out'' ''out/m-v1.tex'') \<noteq> Some 3
   \<and> map_option length (render_cmds ''dvi'' ''out'' ''out/m-v1.tex'') \<noteq> Some 4"
  by (simp add: render_cmds_def pdflatex_cmd_def Let_def)

subsection \<open>An unsupported output format\<close>

text \<open>
  Claim C3 at the output format \<open>epub\<close>.  The error is logged and no command is started,
  but the bare \<^verbatim>\<open>return\<close> yields \<^verbatim>\<open>None\<close>: the value the function also yields after a
  fully successful run, and not the \<^verbatim>\<open>False\<close> that the abort of line 73 returns.
\<close>

theorem unsupported_format_returns_none:
  "render_tex_into_pdf call fn deployed_path dir ''epub'' env =
     \<lparr>ret = ReturnNone,
      environ = env(''TEXINPUTS'' \<mapsto> ''.:'' @ dir @ '':''),
      log = [(ERROR, ''not rendering pdf because epub is not an output format'')],
      procs = [], copies = []\<rparr>
   \<and> ret (render_tex_into_pdf call fn deployed_path dir ''epub'' env)
       = ret (render_tex_into_pdf (\<lambda>idx a. Exited 0) fn deployed_path dir ''pdf'' env)
   \<and> ret (render_tex_into_pdf (\<lambda>idx a. Exited (if idx = 2 then 1 else 0)) fn deployed_path dir
            ''pdf'' env) = ReturnFalse"
proof -
  have none: "render_cmds ''epub'' dir fn = None"
    by (simp add: render_cmds_def pdflatex_cmd_def)
  obtain cmds where cmds: "render_cmds ''pdf'' dir fn = Some cmds" and len: "length cmds = 4"
    by (simp add: render_cmds_def pdflatex_cmd_def Let_def)
  have ok: "\<forall>j<length cmds. \<exists>r. (\<lambda>idx a. Exited 0) (0 + j) (split_ws (cmds ! j)) = Exited r
              \<and> (2 \<le> 0 + j \<longrightarrow> r = 0)"
    by simp
  have success: "ret (render_tex_into_pdf (\<lambda>idx a. Exited 0) fn deployed_path dir ''pdf'' env)
                   = ReturnNone"
    using run_cmds_success [OF ok] by (simp add: render_effects_Some(3) [OF cmds])
  have before: "\<forall>j<2. \<exists>r. (\<lambda>idx a. Exited (if idx = 2 then 1 else 0)) (0 + j) (split_ws (cmds ! j))
                   = Exited r \<and> (2 \<le> 0 + j \<longrightarrow> r = 0)"
    by simp
  have fatal: "ret (render_tex_into_pdf (\<lambda>idx a. Exited (if idx = 2 then 1 else 0)) fn
                 deployed_path dir ''pdf'' env) = ReturnFalse"
    using run_cmds_fatal [of 2 cmds 0 "\<lambda>idx a. Exited (if idx = 2 then 1 else 0)" 1, OF _ _ before]
      len
    by (simp add: render_effects_Some(3) [OF cmds])
  show ?thesis
    using none success fatal by (simp add: render_tex_into_pdf_def)
qed

subsection \<open>The search path in the process environment\<close>

text \<open>
  Claim C6, as the code has it.  The call assigns \<^verbatim>\<open>os.environ['TEXINPUTS']\<close> before
  anything else, for every output format; every command it starts inherits that value;
  and the assignment is still in the process environment when the call has returned.
\<close>

theorem texinputs_set_globally:
  "environ (render_tex_into_pdf call fn deployed_path dir fmt env)
     = env(''TEXINPUTS'' \<mapsto> ''.:'' @ dir @ '':'')
   \<and> map snd (procs (render_tex_into_pdf call fn deployed_path dir fmt env))
     = replicate (length (procs (render_tex_into_pdf call fn deployed_path dir fmt env)))
         (Some (''.:'' @ dir @ '':''))"
proof (cases "render_cmds fmt dir fn")
  case None
  then show ?thesis by (simp add: render_tex_into_pdf_def)
next
  case (Some cmds)
  have "environ (render_tex_into_pdf call fn deployed_path dir fmt env)
          = env(''TEXINPUTS'' \<mapsto> ''.:'' @ dir @ '':'')"
    using Some by (simp add: render_tex_into_pdf_def Let_def split: prod.splits option.splits)
  then show ?thesis
    by (simp add: render_effects_Some(1) [OF Some] run_cmds_texinputs)
qed

text \<open>Starting from an environment without the variable, the variable is set afterwards.\<close>

theorem texinputs_leak_counterexample:
  "environ (render_tex_into_pdf (\<lambda>idx a. Exited 0) ''out/m-v1.tex'' ''pub/m-v1-master.pdf''
      ''out'' ''pdf'' Map.empty) ''TEXINPUTS'' = Some ''.:out:''
   \<and> environ (render_tex_into_pdf (\<lambda>idx a. Exited 0) ''out/m-v1.tex'' ''pub/m-v1-master.pdf''
      ''out'' ''pdf'' Map.empty) \<noteq> Map.empty"
proof -
  have "environ (render_tex_into_pdf (\<lambda>idx a. Exited 0) ''out/m-v1.tex'' ''pub/m-v1-master.pdf''
      ''out'' ''pdf'' Map.empty) ''TEXINPUTS'' = Some ''.:out:''"
    by (simp add: render_tex_into_pdf_def Let_def split: option.splits prod.splits)
  then show ?thesis
    by (metis option.distinct(1))
qed

section \<open>Properties of the task graph\<close>

subsection \<open>The loop in closed form\<close>

lemma pdf_step_rejected:
  "\<not> ec a conf \<Longrightarrow> pdf_step ec conf ld dp fmt g a = g"
  by (simp add: pdf_step_def)

lemma pdf_step_accepted:
  assumes "ec a conf"
  shows "pdf_step ec conf ld dp fmt g a =
     g\<lparr>process_app := process_app g @
          [Process_page (source (artifact_paths ld dp conf a))
             (processed (artifact_paths ld dp conf a)) (Rules (tex_regexes conf))
             ''tex-munge'' ''ifNeeded''],
       render_app := render_app g @ [Task (render_task (artifact_paths ld dp conf a) fmt)],
       link_app := link_app g @
          link_units (deploy_fn conf a) (artifact_paths ld dp conf a)\<rparr>"
  using assms by (simp add: pdf_step_def process_page_def Let_def)

lemma foldl_pdf_step:
  "foldl (pdf_step ec conf ld dp fmt) g arts =
     g\<lparr>process_app := process_app g @
          map (\<lambda>a. Process_page (source (artifact_paths ld dp conf a))
                     (processed (artifact_paths ld dp conf a)) (Rules (tex_regexes conf))
                     ''tex-munge'' ''ifNeeded'')
            (filter (\<lambda>a. ec a conf) arts),
       render_app := render_app g @
          map (\<lambda>a. Task (render_task (artifact_paths ld dp conf a) fmt))
            (filter (\<lambda>a. ec a conf) arts),
       link_app := link_app g @
          concat (map (\<lambda>a. link_units (deploy_fn conf a) (artifact_paths ld dp conf a))
                    (filter (\<lambda>a. ec a conf) arts))\<rparr>"
proof (induction arts arbitrary: g)
  case Nil
  then show ?case by simp
next
  case (Cons a arts)
  show ?case
  proof (cases "ec a conf")
    case True
    then show ?thesis
      by (simp add: Cons.IH pdf_step_accepted)
  next
    case False
    then show ?thesis
      by (simp add: Cons.IH pdf_step_rejected)
  qed
qed

lemma pdf_groups_filter:
  "pdf_groups ec sconf conf arts = pdf_groups ec sconf conf (filter (\<lambda>a. ec a conf) arts)"
  unfolding pdf_groups_def foldl_pdf_step by simp

lemma pdf_tasks_no_pdfs:
  "pdfs conf = None \<Longrightarrow> pdf_tasks ec sconf conf app = app"
  by (simp add: pdf_tasks_def)

lemma pdf_tasks_Some:
  assumes "pdfs conf = Some arts"
  shows "pdf_tasks ec sconf conf app =
           app @ [App (map Leaf (process_app (pdf_groups ec sconf conf arts))),
                  App (map Leaf (render_app (pdf_groups ec sconf conf arts))),
                  App (map Leaf (migrate_app (pdf_groups ec sconf conf arts))),
                  App (map Leaf (link_app (pdf_groups ec sconf conf arts)))]"
  using assms by (simp add: pdf_tasks_def Let_def)

lemma pdf_tasks_nodes:
  assumes "pdfs conf = Some arts"
  shows "length (pdf_tasks ec sconf conf app) = length app + 4"
    and "pdf_tasks ec sconf conf app ! (length app + 1)
           = App (map Leaf (render_app (pdf_groups ec sconf conf arts)))"
    and "pdf_tasks ec sconf conf app ! (length app + 3)
           = App (map Leaf (link_app (pdf_groups ec sconf conf arts)))"
  by (simp_all add: pdf_tasks_Some [OF assms] nth_append)

lemma render_app_pdf_groups:
  "render_app (pdf_groups ec sconf conf arts) =
     map (\<lambda>a. Task (render_task (artifact_paths (latex_dir sconf conf) (deploy_path conf) conf a)
                      (output_format sconf)))
       (filter (\<lambda>a. ec a conf) arts)"
  unfolding pdf_groups_def foldl_pdf_step by (simp add: initial_groups_def)

lemma link_app_pdf_groups:
  "link_app (pdf_groups ec sconf conf arts) =
     concat (map (\<lambda>a. link_units (deploy_fn conf a)
                         (artifact_paths (latex_dir sconf conf) (deploy_path conf) conf a))
               (filter (\<lambda>a. ec a conf) arts))"
  unfolding pdf_groups_def foldl_pdf_step by (simp add: initial_groups_def)

lemma sample_dirs:
  "latex_dir sample_sconf sample_conf = ''/r/build/release/latex''"
  "deploy_path sample_conf = ''/r/build/public/release''"
  by (simp_all add: latex_dir_def deploy_path_def sample_sconf_def sample_conf_def
        path_join_def join2_def)

lemma sample_declared:
  "pdfs sample_conf =
     Some ([] @ \<lparr>output = ''manual.tex'', tag = ''v1'', attrs = []\<rparr>
             # [\<lparr>output = ''guide.tex'', tag = ''v1'', attrs = [(''edition'', ''cloud'')]\<rparr>])"
  by (simp add: sample_conf_def)

subsection \<open>The edition filter\<close>

text \<open>
  Claim C8.  An artifact that \<^verbatim>\<open>edition_check\<close> rejects leaves all four groups as they
  were, and the groups built from a collection that contains it are those built from the
  collection without it.
\<close>

theorem rejected_artifact_contributes_nothing:
  assumes "\<not> ec b conf"
  shows "pdf_step ec conf ld dp fmt g b = g
       \<and> pdf_groups ec sconf conf (xs @ b # ys) = pdf_groups ec sconf conf (xs @ ys)"
proof
  show "pdf_step ec conf ld dp fmt g b = g"
    using assms by (rule pdf_step_rejected)
  have "filter (\<lambda>a. ec a conf) (xs @ b # ys) = filter (\<lambda>a. ec a conf) (xs @ ys)"
    using assms by simp
  then show "pdf_groups ec sconf conf (xs @ b # ys) = pdf_groups ec sconf conf (xs @ ys)"
    using pdf_groups_filter [of ec sconf conf "xs @ b # ys"]
      pdf_groups_filter [of ec sconf conf "xs @ ys"]
    by simp
qed

theorem rejected_artifact_contributes_nothing_witness:
  "pdf_step no_attrs sample_conf ''out'' ''pub'' ''pdf'' empty_groups
      \<lparr>output = ''guide.tex'', tag = ''v1'', attrs = [(''edition'', ''cloud'')]\<rparr> = empty_groups
   \<and> pdf_groups no_attrs sample_sconf sample_conf
        ([\<lparr>output = ''manual.tex'', tag = ''v1'', attrs = []\<rparr>]
         @ \<lparr>output = ''guide.tex'', tag = ''v1'', attrs = [(''edition'', ''cloud'')]\<rparr> # [])
     = pdf_groups no_attrs sample_sconf sample_conf
        ([\<lparr>output = ''manual.tex'', tag = ''v1'', attrs = []\<rparr>] @ [])"
proof -
  have rejected: "\<not> no_attrs \<lparr>output = ''guide.tex'', tag = ''v1'', attrs = [(''edition'', ''cloud'')]\<rparr>
                     sample_conf"
    by (simp add: no_attrs_def)
  from rejected_artifact_contributes_nothing [where ec = no_attrs and conf = sample_conf
      and b = "\<lparr>output = ''guide.tex'', tag = ''v1'', attrs = [(''edition'', ''cloud'')]\<rparr>"
      and ld = "''out''" and dp = "''pub''" and fmt = "''pdf''" and g = empty_groups
      and sconf = sample_sconf
      and xs = "[\<lparr>output = ''manual.tex'', tag = ''v1'', attrs = []\<rparr>]" and ys = "[]",
      OF rejected]
  show ?thesis
    by simp
qed

subsection \<open>Link units\<close>

text \<open>
  Claim C4.  For a dictionary \<open>i\<close> of derived paths, the guarded block adds no unit when
  \<open>link i = deployed i\<close>, and otherwise exactly one task, whose dependency is
  \<open>deployed i\<close> and whose target is \<open>link i\<close>.  When the configuration declares a
  collection that contains an artifact \<open>a\<close> which passes the edition filter, the graph
  built by \<^verbatim>\<open>pdf_tasks\<close> is the old queue followed by four groups, and its fourth group
  holds, between the link units of the accepted artifacts before \<open>a\<close> and of those after
  it, exactly the units of the guarded block for the paths derived for \<open>a\<close>.
\<close>

theorem link_unit_iff_link_differs:
  assumes "pdfs conf = Some (xs @ a # ys)" and "ec a conf"
  shows "link_units dfn i =
           (if link i = deployed i then []
            else [Task \<lparr>job = Create_link, args = [dfn, link i],
                        dependency = Some (deployed i), target = Some (link i)\<rparr>])
       \<and> length (pdf_tasks ec sconf conf app) = length app + 4
       \<and> pdf_tasks ec sconf conf app ! (length app + 3) =
           App (map Leaf
             (concat (map (\<lambda>b. link_units (deploy_fn conf b)
                                 (artifact_paths (latex_dir sconf conf) (deploy_path conf) conf b))
                        (filter (\<lambda>b. ec b conf) xs))
              @ link_units (deploy_fn conf a)
                  (artifact_paths (latex_dir sconf conf) (deploy_path conf) conf a)
              @ concat (map (\<lambda>b. link_units (deploy_fn conf b)
                                 (artifact_paths (latex_dir sconf conf) (deploy_path conf) conf b))
                        (filter (\<lambda>b. ec b conf) ys))))
       \<and> link_app (pdf_step ec conf ld dp fmt g a) =
           link_app g @ link_units (deploy_fn conf a) (artifact_paths ld dp conf a)"
proof (intro conjI)
  show "link_units dfn i =
           (if link i = deployed i then []
            else [Task \<lparr>job = Create_link, args = [dfn, link i],
                        dependency = Some (deployed i), target = Some (link i)\<rparr>])"
    by (simp add: link_units_def link_task_def)
  show "length (pdf_tasks ec sconf conf app) = length app + 4"
    by (rule pdf_tasks_nodes(1) [OF assms(1)])
  show "pdf_tasks ec sconf conf app ! (length app + 3) =
           App (map Leaf
             (concat (map (\<lambda>b. link_units (deploy_fn conf b)
                                 (artifact_paths (latex_dir sconf conf) (deploy_path conf) conf b))
                        (filter (\<lambda>b. ec b conf) xs))
              @ link_units (deploy_fn conf a)
                  (artifact_paths (latex_dir sconf conf) (deploy_path conf) conf a)
              @ concat (map (\<lambda>b. link_units (deploy_fn conf b)
                                 (artifact_paths (latex_dir sconf conf) (deploy_path conf) conf b))
                        (filter (\<lambda>b. ec b conf) ys))))"
    unfolding pdf_tasks_nodes(3) [OF assms(1)] link_app_pdf_groups
    using assms(2) by simp
  show "link_app (pdf_step ec conf ld dp fmt g a) =
           link_app g @ link_units (deploy_fn conf a) (artifact_paths ld dp conf a)"
    using assms(2) by (simp add: pdf_step_accepted)
qed

theorem link_unit_iff_link_differs_witness:
  "link_units ''m-release.pdf''
      \<lparr>output = ''m.tex'', tag = ''v1'', attrs = [], source = ''out/m.tex'',
       processed = ''out/m-v1.tex'', pdf = ''out/m-v1.pdf'', deployed = ''pub/m.pdf'',
       link = ''pub/m.pdf'', path = ''out''\<rparr> = []
   \<and> length (pdf_tasks accept_all sample_sconf sample_conf []) = 4
   \<and> pdf_tasks accept_all sample_sconf sample_conf [] ! 3
       = App [Leaf (Task \<lparr>job = Create_link,
                           args = [''manual-v1-release.pdf'',
                                   ''/r/build/public/release/manual-v1.pdf''],
                           dependency = Some ''/r/build/public/release/manual-v1-release.pdf'',
                           target = Some ''/r/build/public/release/manual-v1.pdf''\<rparr>),
              Leaf (Task \<lparr>job = Create_link,
                           args = [''guide-v1-release.pdf'',
                                   ''/r/build/public/release/guide-v1.pdf''],
                           dependency = Some ''/r/build/public/release/guide-v1-release.pdf'',
                           target = Some ''/r/build/public/release/guide-v1.pdf''\<rparr>)]"
proof -
  let ?a = "\<lparr>output = ''manual.tex'', tag = ''v1'', attrs = []\<rparr>"
  let ?b = "\<lparr>output = ''guide.tex'', tag = ''v1'', attrs = [(''edition'', ''cloud'')]\<rparr>"
  have ok: "accept_all ?a sample_conf"
    by (simp add: accept_all_def)
  have all: "filter (\<lambda>b. accept_all b sample_conf) [?b] = [?b]"
    by (simp add: accept_all_def)
  have dfn: "deploy_fn sample_conf ?a = ''manual-v1-release.pdf''"
    "deploy_fn sample_conf ?b = ''guide-v1-release.pdf''"
    by (simp_all add: deploy_fn_def tagged_name_def sample_conf_def)
  have branch: "current_branch sample_conf = ''release''"
    by (simp add: sample_conf_def)
  have manual: "link_units ''manual-v1-release.pdf''
                  (artifact_paths ''/r/build/release/latex'' ''/r/build/public/release'' sample_conf ?a)
      = [Task \<lparr>job = Create_link,
               args = [''manual-v1-release.pdf'', ''/r/build/public/release/manual-v1.pdf''],
               dependency = Some ''/r/build/public/release/manual-v1-release.pdf'',
               target = Some ''/r/build/public/release/manual-v1.pdf''\<rparr>]"
    by (simp add: link_units_def link_task_def artifact_paths_def link_name_def dfn branch
          path_join_def join2_def)
  have guide: "link_units ''guide-v1-release.pdf''
                  (artifact_paths ''/r/build/release/latex'' ''/r/build/public/release'' sample_conf ?b)
      = [Task \<lparr>job = Create_link,
               args = [''guide-v1-release.pdf'', ''/r/build/public/release/guide-v1.pdf''],
               dependency = Some ''/r/build/public/release/guide-v1-release.pdf'',
               target = Some ''/r/build/public/release/guide-v1.pdf''\<rparr>]"
    by (simp add: link_units_def link_task_def artifact_paths_def link_name_def dfn branch
          path_join_def join2_def)
  from link_unit_iff_link_differs [where ec = accept_all and a = ?a and conf = sample_conf
      and xs = "[]" and ys = "[?b]" and sconf = sample_sconf and app = "[]"
      and dfn = "''m-release.pdf''"
      and i = "\<lparr>output = ''m.tex'', tag = ''v1'', attrs = [], source = ''out/m.tex'',
        processed = ''out/m-v1.tex'', pdf = ''out/m-v1.pdf'', deployed = ''pub/m.pdf'',
        link = ''pub/m.pdf'', path = ''out''\<rparr>"
      and ld = "''out''" and dp = "''pub''" and fmt = "''pdf''" and g = empty_groups,
      OF sample_declared ok]
  show ?thesis
    unfolding all sample_dirs
    by (simp add: dfn manual guide)
qed

text \<open>
  With the paths that the loop derives, the two never coincide on a POSIX system: the
  link name is the deployed file name with at least one occurrence of \<^verbatim>\<open>'-' + branch\<close>
  removed, hence strictly shorter.
\<close>

lemma py_replace_delete_length_le:
  "length (py_replace old [] s) \<le> length s"
proof (induction old "[] :: string" s rule: py_replace.induct)
  case (1 old)
  show ?case by simp
next
  case (2 old c cs)
  show ?case
  proof (cases "old = []")
    case True
    with 2(1) show ?thesis by simp
  next
    case False
    show ?thesis
    proof (cases "take (length old) (c # cs) = old")
      case True
      have "length (py_replace old [] (drop (length old) (c # cs)))
              \<le> length (drop (length old) (c # cs))"
        using 2(2) [OF False True] .
      with False True show ?thesis by simp
    next
      case no: False
      with False 2(3) show ?thesis by simp
    qed
  qed
qed

lemma py_replace_delete_shrinks:
  assumes "old \<noteq> []"
  shows "length (py_replace old [] (us @ old @ vs)) < length (us @ old @ vs)"
proof (induction us)
  case Nil
  obtain c cs where s: "old @ vs = c # cs"
    using assms by (cases "old @ vs") auto
  have tk: "take (length old) (c # cs) = old" and dr: "drop (length old) (c # cs) = vs"
    unfolding s [symmetric] by simp_all
  have "py_replace old [] (c # cs) = py_replace old [] (drop (length old) (c # cs))"
    using assms tk by simp
  then have "py_replace old [] (old @ vs) = py_replace old [] vs"
    unfolding s [symmetric] by simp
  moreover have "length (py_replace old [] vs) \<le> length vs"
    by (rule py_replace_delete_length_le)
  ultimately show ?case using assms by (cases old) auto
next
  case (Cons u us)
  show ?case
  proof (cases "take (length old) (u # us @ old @ vs) = old")
    case True
    have "length (py_replace old [] (drop (length old) (u # us @ old @ vs)))
            \<le> length (drop (length old) (u # us @ old @ vs))"
      by (rule py_replace_delete_length_le)
    moreover have "py_replace old [] (u # us @ old @ vs)
            = py_replace old [] (drop (length old) (u # us @ old @ vs))"
      using assms True by simp
    ultimately show ?thesis using assms by (cases old) auto
  next
    case False
    with assms Cons show ?thesis by simp
  qed
qed

lemma py_replace_keeps_other_head:
  assumes "old \<noteq> []" and "hd old \<noteq> c"
  shows "py_replace old [] (c # cs) = c # py_replace old [] cs"
proof -
  have "take (length old) (c # cs) \<noteq> old"
    using assms by (cases old) auto
  with assms show ?thesis by simp
qed

lemma join2_differ:
  assumes "length r < length s"
    and "s \<noteq> [] \<and> hd s = CHR ''/'' \<longrightarrow> r \<noteq> [] \<and> hd r = CHR ''/''"
  shows "join2 d r \<noteq> join2 d s"
proof (cases "s \<noteq> [] \<and> hd s = CHR ''/''")
  case True
  with assms show ?thesis by (auto simp: join2_def)
next
  case False
  show ?thesis
  proof (cases "r \<noteq> [] \<and> hd r = CHR ''/''")
    case True
    have "length (join2 d r) = length r"
      using True by (simp add: join2_def)
    moreover have "length s \<le> length (join2 d s)"
      by (simp add: join2_def)
    ultimately show ?thesis using assms(1) by auto
  next
    case no: False
    have "r \<noteq> s" using assms(1) by auto
    with False no show ?thesis by (auto simp: join2_def)
  qed
qed

lemma link_differs_from_deployed:
  "link (artifact_paths ld dp conf a) \<noteq> deployed (artifact_paths ld dp conf a)"
proof -
  let ?old = "''-'' @ current_branch conf"
  let ?s = "deploy_fn conf a"
  have s: "?s = tagged_name a @ ?old @ ''.pdf''"
    by (simp add: deploy_fn_def)
  have shorter: "length (link_name conf a) < length ?s"
    unfolding link_name_def s by (rule py_replace_delete_shrinks) simp
  have head: "?s \<noteq> [] \<and> hd ?s = CHR ''/''
                \<longrightarrow> link_name conf a \<noteq> [] \<and> hd (link_name conf a) = CHR ''/''"
  proof
    assume "?s \<noteq> [] \<and> hd ?s = CHR ''/''"
    then obtain cs where cs: "?s = CHR ''/'' # cs"
      by (cases ?s) auto
    have "link_name conf a = CHR ''/'' # py_replace ?old [] cs"
      unfolding link_name_def cs by (rule py_replace_keeps_other_head) simp_all
    then show "link_name conf a \<noteq> [] \<and> hd (link_name conf a) = CHR ''/''"
      by simp
  qed
  have "join2 dp (link_name conf a) \<noteq> join2 dp ?s"
    using shorter head by (rule join2_differ)
  then show ?thesis
    by (simp add: artifact_paths_def path_join_def)
qed

subsection \<open>The scenario \<open>manual.tex\<close>, tag \<open>v1\<close>, branch \<open>release\<close>\<close>

lemma join2_relative:
  "b \<noteq> [] \<Longrightarrow> hd b \<noteq> CHR ''/'' \<Longrightarrow>
   path_join a [b] = (if a = [] \<or> last a = CHR ''/'' then a @ b else a @ ''/'' @ b)"
  by (simp add: path_join_def join2_def)

lemma suffix_join2_relative:
  "b \<noteq> [] \<Longrightarrow> hd b \<noteq> CHR ''/'' \<Longrightarrow> suffix b (path_join a [b])"
  by (simp add: join2_relative suffix_def)

text \<open>
  Claim C5.  Let the configuration declare a collection that contains the artifact with
  output \<open>manual.tex\<close> and tag \<open>v1\<close>, let the current branch be \<open>release\<close>, and let the
  artifact pass the edition filter.  Then \<^verbatim>\<open>pdf_tasks\<close> derives for it the processed path
  (latex directory joined with \<open>manual-v1.tex\<close>), the deployed path (deploy directory joined
  with \<open>manual-v1-release.pdf\<close>) and the link path (deploy directory joined with
  \<open>manual-v1.pdf\<close>), each ending in that file name; link and deployed path differ; the
  render group of the graph holds its render task with the processed and deployed path as
  arguments, and the link group holds its link task, with the deployed path as dependency
  and the link path as target.
\<close>

theorem manual_v1_release_paths:
  assumes declared: "pdfs conf = Some (xs @ \<lparr>output = ''manual.tex'', tag = ''v1'', attrs = extra\<rparr> # ys)"
    and branch: "current_branch conf = ''release''"
    and accepted: "ec \<lparr>output = ''manual.tex'', tag = ''v1'', attrs = extra\<rparr> conf"
  shows "artifact_paths (latex_dir sconf conf) (deploy_path conf) conf
           \<lparr>output = ''manual.tex'', tag = ''v1'', attrs = extra\<rparr>
         = \<lparr>output = ''manual.tex'', tag = ''v1'', attrs = extra,
            source = path_join (latex_dir sconf conf) [''manual.tex''],
            processed = path_join (latex_dir sconf conf) [''manual-v1.tex''],
            pdf = path_join (latex_dir sconf conf) [''manual-v1.pdf''],
            deployed = path_join (deploy_path conf) [''manual-v1-release.pdf''],
            link = path_join (deploy_path conf) [''manual-v1.pdf''],
            path = latex_dir sconf conf\<rparr>
       \<and> suffix ''manual-v1.tex'' (path_join (latex_dir sconf conf) [''manual-v1.tex''])
       \<and> suffix ''manual-v1-release.pdf'' (path_join (deploy_path conf) [''manual-v1-release.pdf''])
       \<and> suffix ''manual-v1.pdf'' (path_join (deploy_path conf) [''manual-v1.pdf''])
       \<and> path_join (deploy_path conf) [''manual-v1.pdf'']
           \<noteq> path_join (deploy_path conf) [''manual-v1-release.pdf'']
       \<and> length (pdf_tasks ec sconf conf app) = length app + 4
       \<and> pdf_tasks ec sconf conf app ! (length app + 1) =
           App (map Leaf
             (map (\<lambda>b. Task (render_task
                              (artifact_paths (latex_dir sconf conf) (deploy_path conf) conf b)
                              (output_format sconf)))
                (filter (\<lambda>b. ec b conf) xs)
              @ [Task \<lparr>job = Render_tex_into_pdf,
                       args = [path_join (latex_dir sconf conf) [''manual-v1.tex''],
                               path_join (deploy_path conf) [''manual-v1-release.pdf''],
                               latex_dir sconf conf, output_format sconf],
                       dependency = None,
                       target = Some (path_join (latex_dir sconf conf) [''manual-v1.pdf''])\<rparr>]
              @ map (\<lambda>b. Task (render_task
                              (artifact_paths (latex_dir sconf conf) (deploy_path conf) conf b)
                              (output_format sconf)))
                  (filter (\<lambda>b. ec b conf) ys)))
       \<and> pdf_tasks ec sconf conf app ! (length app + 3) =
           App (map Leaf
             (concat (map (\<lambda>b. link_units (deploy_fn conf b)
                                 (artifact_paths (latex_dir sconf conf) (deploy_path conf) conf b))
                        (filter (\<lambda>b. ec b conf) xs))
              @ [Task \<lparr>job = Create_link,
                       args = [''manual-v1-release.pdf'',
                               path_join (deploy_path conf) [''manual-v1.pdf'']],
                       dependency = Some (path_join (deploy_path conf) [''manual-v1-release.pdf'']),
                       target = Some (path_join (deploy_path conf) [''manual-v1.pdf''])\<rparr>]
              @ concat (map (\<lambda>b. link_units (deploy_fn conf b)
                                 (artifact_paths (latex_dir sconf conf) (deploy_path conf) conf b))
                        (filter (\<lambda>b. ec b conf) ys))))"
proof -
  let ?a = "\<lparr>output = ''manual.tex'', tag = ''v1'', attrs = extra\<rparr>"
  let ?ld = "latex_dir sconf conf"
  let ?dp = "deploy_path conf"
  have tn: "tagged_name ?a = ''manual-v1''"
    by (simp add: tagged_name_def)
  have dfn: "deploy_fn conf ?a = ''manual-v1-release.pdf''"
    by (simp add: deploy_fn_def tn branch)
  have ln: "link_name conf ?a = ''manual-v1.pdf''"
    by (simp add: link_name_def dfn branch)
  have paths: "artifact_paths ?ld ?dp conf ?a
         = \<lparr>output = ''manual.tex'', tag = ''v1'', attrs = extra,
            source = path_join ?ld [''manual.tex''],
            processed = path_join ?ld [''manual-v1.tex''],
            pdf = path_join ?ld [''manual-v1.pdf''],
            deployed = path_join ?dp [''manual-v1-release.pdf''],
            link = path_join ?dp [''manual-v1.pdf''],
            path = ?ld\<rparr>"
    by (simp add: artifact_paths_def tn dfn ln)
  have ne: "path_join ?dp [''manual-v1.pdf''] \<noteq> path_join ?dp [''manual-v1-release.pdf'']"
    by (simp add: join2_relative)
  have s1: "suffix ''manual-v1.tex'' (path_join ?ld [''manual-v1.tex''])"
    by (rule suffix_join2_relative) simp_all
  have s2: "suffix ''manual-v1-release.pdf'' (path_join ?dp [''manual-v1-release.pdf''])"
    by (rule suffix_join2_relative) simp_all
  have s3: "suffix ''manual-v1.pdf'' (path_join ?dp [''manual-v1.pdf''])"
    by (rule suffix_join2_relative) simp_all
  have len: "length (pdf_tasks ec sconf conf app) = length app + 4"
    by (rule pdf_tasks_nodes(1) [OF declared])
  have rt: "render_task (artifact_paths ?ld ?dp conf ?a) (output_format sconf) =
              \<lparr>job = Render_tex_into_pdf,
               args = [path_join ?ld [''manual-v1.tex''],
                       path_join ?dp [''manual-v1-release.pdf''], ?ld, output_format sconf],
               dependency = None,
               target = Some (path_join ?ld [''manual-v1.pdf''])\<rparr>"
    unfolding paths by (simp add: render_task_def)
  have lu: "link_units (deploy_fn conf ?a) (artifact_paths ?ld ?dp conf ?a) =
              [Task \<lparr>job = Create_link,
                     args = [''manual-v1-release.pdf'', path_join ?dp [''manual-v1.pdf'']],
                     dependency = Some (path_join ?dp [''manual-v1-release.pdf'']),
                     target = Some (path_join ?dp [''manual-v1.pdf''])\<rparr>]"
    unfolding paths dfn using ne by (simp add: link_units_def link_task_def)
  have render: "pdf_tasks ec sconf conf app ! (length app + 1) =
           App (map Leaf
             (map (\<lambda>b. Task (render_task (artifact_paths ?ld ?dp conf b) (output_format sconf)))
                (filter (\<lambda>b. ec b conf) xs)
              @ [Task \<lparr>job = Render_tex_into_pdf,
                       args = [path_join ?ld [''manual-v1.tex''],
                               path_join ?dp [''manual-v1-release.pdf''],
                               ?ld, output_format sconf],
                       dependency = None,
                       target = Some (path_join ?ld [''manual-v1.pdf''])\<rparr>]
              @ map (\<lambda>b. Task (render_task (artifact_paths ?ld ?dp conf b) (output_format sconf)))
                  (filter (\<lambda>b. ec b conf) ys)))"
    unfolding pdf_tasks_nodes(2) [OF declared] render_app_pdf_groups
    using accepted by (simp add: rt)
  have links: "pdf_tasks ec sconf conf app ! (length app + 3) =
           App (map Leaf
             (concat (map (\<lambda>b. link_units (deploy_fn conf b) (artifact_paths ?ld ?dp conf b))
                        (filter (\<lambda>b. ec b conf) xs))
              @ [Task \<lparr>job = Create_link,
                       args = [''manual-v1-release.pdf'', path_join ?dp [''manual-v1.pdf'']],
                       dependency = Some (path_join ?dp [''manual-v1-release.pdf'']),
                       target = Some (path_join ?dp [''manual-v1.pdf''])\<rparr>]
              @ concat (map (\<lambda>b. link_units (deploy_fn conf b) (artifact_paths ?ld ?dp conf b))
                        (filter (\<lambda>b. ec b conf) ys))))"
    unfolding pdf_tasks_nodes(3) [OF declared] link_app_pdf_groups
    using accepted by (simp add: lu)
  from paths s1 s2 s3 ne len render links show ?thesis
    by (intro conjI)
qed

theorem manual_v1_release_paths_witness:
  "length (pdf_tasks no_attrs sample_sconf sample_conf []) = 4
   \<and> pdf_tasks no_attrs sample_sconf sample_conf [] ! 1
     = App [Leaf (Task \<lparr>job = Render_tex_into_pdf,
                         args = [''/r/build/release/latex/manual-v1.tex'',
                                 ''/r/build/public/release/manual-v1-release.pdf'',
                                 ''/r/build/release/latex'', ''dvi''],
                         dependency = None,
                         target = Some ''/r/build/release/latex/manual-v1.pdf''\<rparr>)]
   \<and> pdf_tasks no_attrs sample_sconf sample_conf [] ! 3
     = App [Leaf (Task \<lparr>job = Create_link,
                         args = [''manual-v1-release.pdf'',
                                 ''/r/build/public/release/manual-v1.pdf''],
                         dependency = Some ''/r/build/public/release/manual-v1-release.pdf'',
                         target = Some ''/r/build/public/release/manual-v1.pdf''\<rparr>)]"
proof -
  let ?a = "\<lparr>output = ''manual.tex'', tag = ''v1'', attrs = []\<rparr>"
  let ?b = "\<lparr>output = ''guide.tex'', tag = ''v1'', attrs = [(''edition'', ''cloud'')]\<rparr>"
  have ok: "no_attrs ?a sample_conf"
    by (simp add: no_attrs_def)
  have none: "filter (\<lambda>b. no_attrs b sample_conf) [?b] = []"
    by (simp add: no_attrs_def)
  have branch: "current_branch sample_conf = ''release''"
    by (simp add: sample_conf_def)
  have fmt: "output_format sample_sconf = ''dvi''"
    by (simp add: output_format_def offset_def sample_sconf_def)
  from manual_v1_release_paths [where ec = no_attrs and conf = sample_conf and extra = "[]"
      and xs = "[]" and ys = "[?b]" and sconf = sample_sconf and app = "[]",
      OF sample_declared branch ok]
  show ?thesis
    unfolding none sample_dirs fmt
    by (simp add: path_join_def join2_def)
qed

subsection \<open>The \<open>offset\<close> build variant\<close>

text \<open>
  Claim C9.  When the configuration declares a \<^verbatim>\<open>pdfs\<close> collection, the graph is the old
  queue followed by the four groups.  If the tags of the build variant contain \<open>offset\<close>,
  the transform group starts with one unit that rewrites \<^verbatim>\<open>sphinx.sty\<close> of the latex
  directory in place with the rule that drops the option \<^verbatim>\<open>[pdftex]\<close> from the
  \<^verbatim>\<open>usepackage\<close> directive of \<^verbatim>\<open>graphicx\<close>, before the units of the artifacts, and every render task is
  given the output format \<open>dvi\<close>.  Otherwise the transform group holds the units of the
  artifacts only and the output format is \<open>pdf\<close>.
\<close>

theorem offset_selects_dvi_and_style_unit:
  assumes "pdfs conf = Some arts"
  shows "offset sconf = (case tags sconf of None \<Rightarrow> False | Some ts \<Rightarrow> ''offset'' \<in> set ts)
   \<and> pdf_tasks ec sconf conf app =
       app @
       [App (map Leaf
          ((if offset sconf
            then [Process_page (path_join (latex_dir sconf conf) [''sphinx.sty''])
                    (path_join (latex_dir sconf conf) [''sphinx.sty''])
                    (Rule (bslash # bslash # ''usepackage'' @ bslash # ''[pdftex'' @ bslash # '']''
                             @ bslash # ''{graphicx'' @ bslash # ''}'',
                           bslash # ''usepackage{graphicx}''))
                    ''sphinx-latex'' ''ifNeeded'']
            else [])
           @ map (\<lambda>a. Process_page
                        (source (artifact_paths (latex_dir sconf conf) (deploy_path conf) conf a))
                        (processed (artifact_paths (latex_dir sconf conf) (deploy_path conf) conf a))
                        (Rules (tex_regexes conf)) ''tex-munge'' ''ifNeeded'')
               (filter (\<lambda>a. ec a conf) arts))),
        App (map Leaf
          (map (\<lambda>a. Task (render_task
                            (artifact_paths (latex_dir sconf conf) (deploy_path conf) conf a)
                            (if offset sconf then ''dvi'' else ''pdf'')))
             (filter (\<lambda>a. ec a conf) arts))),
        App [],
        App (map Leaf
          (concat (map (\<lambda>a. link_units (deploy_fn conf a)
                               (artifact_paths (latex_dir sconf conf) (deploy_path conf) conf a))
                     (filter (\<lambda>a. ec a conf) arts))))]"
  using assms
  unfolding pdf_tasks_def pdf_groups_def foldl_pdf_step
  by (simp add: initial_groups_def process_page_def sty_regex_def output_format_def offset_def
        Let_def split: option.splits)

theorem offset_selects_dvi_and_style_unit_witness:
  "pdf_tasks no_attrs sample_sconf sample_conf [] ! 0
     = App [Leaf (Process_page ''/r/build/release/latex/sphinx.sty''
                    ''/r/build/release/latex/sphinx.sty'' (Rule sty_regex)
                    ''sphinx-latex'' ''ifNeeded''),
            Leaf (Process_page ''/r/build/release/latex/manual.tex''
                    ''/r/build/release/latex/manual-v1.tex'' (Rules (tex_regexes sample_conf))
                    ''tex-munge'' ''ifNeeded'')]
   \<and> pdf_tasks no_attrs sample_sconf sample_conf [] ! 1
     = App [Leaf (Task \<lparr>job = Render_tex_into_pdf,
                         args = [''/r/build/release/latex/manual-v1.tex'',
                                 ''/r/build/public/release/manual-v1-release.pdf'',
                                 ''/r/build/release/latex'', ''dvi''],
                         dependency = None,
                         target = Some ''/r/build/release/latex/manual-v1.pdf''\<rparr>)]
   \<and> pdf_tasks no_attrs (sample_sconf\<lparr>tags := None\<rparr>) sample_conf [] ! 0
     = App [Leaf (Process_page ''/r/build/release/latex/manual.tex''
                    ''/r/build/release/latex/manual-v1.tex'' (Rules (tex_regexes sample_conf))
                    ''tex-munge'' ''ifNeeded'')]
   \<and> pdf_tasks no_attrs (sample_sconf\<lparr>tags := None\<rparr>) sample_conf [] ! 1
     = App [Leaf (Task \<lparr>job = Render_tex_into_pdf,
                         args = [''/r/build/release/latex/manual-v1.tex'',
                                 ''/r/build/public/release/manual-v1-release.pdf'',
                                 ''/r/build/release/latex'', ''pdf''],
                         dependency = None,
                         target = Some ''/r/build/release/latex/manual-v1.pdf''\<rparr>)]"
proof -
  let ?arts = "[\<lparr>output = ''manual.tex'', tag = ''v1'', attrs = []\<rparr>,
                \<lparr>output = ''guide.tex'', tag = ''v1'', attrs = [(''edition'', ''cloud'')]\<rparr>]"
  have declared: "pdfs sample_conf = Some ?arts"
    by (simp add: sample_conf_def)
  have accepted: "filter (\<lambda>a. no_attrs a sample_conf) ?arts
                    = [\<lparr>output = ''manual.tex'', tag = ''v1'', attrs = []\<rparr>]"
    by (simp add: no_attrs_def)
  have on: "offset sample_sconf" and off: "\<not> offset (sample_sconf\<lparr>tags := None\<rparr>)"
    by (simp_all add: offset_def sample_sconf_def)
  have dir: "latex_dir sample_sconf sample_conf = ''/r/build/release/latex''"
    "latex_dir (sample_sconf\<lparr>tags := None\<rparr>) sample_conf = ''/r/build/release/latex''"
    "deploy_path sample_conf = ''/r/build/public/release''"
    by (simp_all add: latex_dir_def deploy_path_def sample_sconf_def sample_conf_def
          path_join_def join2_def)
  have dfn: "deploy_fn sample_conf \<lparr>output = ''manual.tex'', tag = ''v1'', attrs = []\<rparr>
               = ''manual-v1-release.pdf''"
    by (simp add: deploy_fn_def tagged_name_def sample_conf_def)
  have paths: "artifact_paths ''/r/build/release/latex'' ''/r/build/public/release'' sample_conf
                 \<lparr>output = ''manual.tex'', tag = ''v1'', attrs = []\<rparr> =
       \<lparr>output = ''manual.tex'', tag = ''v1'', attrs = [],
        source = ''/r/build/release/latex/manual.tex'',
        processed = ''/r/build/release/latex/manual-v1.tex'',
        pdf = ''/r/build/release/latex/manual-v1.pdf'',
        deployed = ''/r/build/public/release/manual-v1-release.pdf'',
        link = ''/r/build/public/release/manual-v1.pdf'',
        path = ''/r/build/release/latex''\<rparr>"
    by (simp add: artifact_paths_def link_name_def dfn tagged_name_def path_join_def join2_def)
       (simp add: sample_conf_def)
  note with_offset = offset_selects_dvi_and_style_unit [where ec = no_attrs
      and sconf = sample_sconf and app = "[]", OF declared]
  note without = offset_selects_dvi_and_style_unit [where ec = no_attrs
      and sconf = "sample_sconf\<lparr>tags := None\<rparr>" and app = "[]", OF declared]
  from with_offset without show ?thesis
    unfolding accepted dir
    by (simp add: on off paths render_task_def sty_regex_def path_join_def join2_def)
qed

subsection \<open>The migrate group\<close>

lemma migrate_app_empty:
  "migrate_app (pdf_groups ec sconf conf arts) = []"
  unfolding pdf_groups_def foldl_pdf_step by (simp add: initial_groups_def)

text \<open>
  Claim C10.  Whatever the collection, the third group (\<^verbatim>\<open>migrate_app\<close>) is empty when
  \<^verbatim>\<open>pdf_tasks\<close> is done.  The copy to the deployed path is made by the render job: when
  no command fails fatally, \<^verbatim>\<open>_render_tex_into_pdf\<close> calls \<^verbatim>\<open>copy_if_needed\<close> once, from
  the \<^verbatim>\<open>.pdf\<close> beside the tex file to \<open>deployed_path\<close>.
\<close>

theorem migrate_group_stays_empty:
  assumes "render_cmds fmt dir fn = Some cmds"
    and "\<forall>j<length cmds. \<exists>r. call j (split_ws (cmds ! j)) = Exited r \<and> (2 \<le> j \<longrightarrow> r = 0)"
  shows "migrate_app (pdf_groups ec sconf conf arts) = []
       \<and> (pdfs conf = Some arts \<longrightarrow>
            pdf_tasks ec sconf conf app ! (length app + 2) = App [])
       \<and> copies (render_tex_into_pdf call fn deployed_path dir fmt env)
           = [(fst (splitext fn) @ ''.pdf'', deployed_path, ''pdf'')]"
proof (intro conjI impI)
  show "migrate_app (pdf_groups ec sconf conf arts) = []"
    by (rule migrate_app_empty)
  show "pdf_tasks ec sconf conf app ! (length app + 2) = App []" if "pdfs conf = Some arts"
    using that by (simp add: pdf_tasks_def Let_def migrate_app_empty nth_append)
  have "\<forall>j<length cmds. \<exists>r. call (0 + j) (split_ws (cmds ! j)) = Exited r
          \<and> (2 \<le> 0 + j \<longrightarrow> r = 0)"
    using assms(2) by simp
  then have "fst (run_cmds call (basename fn) (length cmds) (Some (''.:'' @ dir @ '':'')) 0 cmds)
               = None"
    using run_cmds_success by blast
  then show "copies (render_tex_into_pdf call fn deployed_path dir fmt env)
           = [(fst (splitext fn) @ ''.pdf'', deployed_path, ''pdf'')]"
    by (simp add: render_effects_Some(4) [OF assms(1)])
qed

theorem migrate_group_stays_empty_witness:
  "migrate_app (pdf_groups accept_all sample_sconf sample_conf
                  [\<lparr>output = ''manual.tex'', tag = ''v1'', attrs = []\<rparr>]) = []
   \<and> copies (render_tex_into_pdf (\<lambda>idx a. Exited (if idx = 1 then 1 else 0)) ''out/m-v1.tex''
               ''pub/m-v1-master.pdf'' ''out'' ''pdf'' Map.empty)
       = [(''out/m-v1.pdf'', ''pub/m-v1-master.pdf'', ''pdf'')]"
proof -
  let ?call = "\<lambda>(idx::nat) (a::string list). Exited (if idx = 1 then 1 else 0)"
  let ?cmds = "[''pdflatex --interaction batchmode --output-directory out out/m-v1.tex'',
           ''makeindex -s out/python.ist out/m-v1.idx '',
           ''pdflatex --interaction batchmode --output-directory out out/m-v1.tex'',
           ''pdflatex --interaction batchmode --output-directory out out/m-v1.tex'']"
  have all: "\<forall>j<length ?cmds. \<exists>r. ?call j (split_ws (?cmds ! j)) = Exited r \<and> (2 \<le> j \<longrightarrow> r = 0)"
    by simp
  have ext: "fst (splitext ''out/m-v1.tex'') = ''out/m-v1''"
    by (simp add: splitext_def Let_def)
  from migrate_group_stays_empty [OF render_cmds_pdf_example all,
      of accept_all sample_sconf sample_conf
         "[\<lparr>output = ''manual.tex'', tag = ''v1'', attrs = []\<rparr>]" "[]"
         "''pub/m-v1-master.pdf''" Map.empty]
  show ?thesis
    by (simp add: ext)
qed

section \<open>Properties of \<^verbatim>\<open>assets_setup\<close>\<close>

lemma rfind_lower: "- 1 \<le> rfind c s"
  by (induction s) (auto simp: Let_def)

lemma rfind_tail_free: "c \<notin> set (drop (nat (rfind c s + 1)) s)"
proof (induction s)
  case Nil
  show ?case by simp
next
  case (Cons x xs)
  show ?case
  proof (cases "0 \<le> rfind c xs")
    case True
    then have "nat (rfind c xs + 1 + 1) = Suc (nat (rfind c xs + 1))"
      by simp
    with True Cons show ?thesis by (simp add: Let_def)
  next
    case False
    with rfind_lower [of c xs] have "rfind c xs = - 1" by simp
    with Cons show ?thesis by (auto simp: Let_def)
  qed
qed

lemma rstrip_slash_decompose:
  "h = rstrip_slash h @ replicate (length h - length (rstrip_slash h)) CHR ''/''"
proof -
  let ?P = "\<lambda>c. c = CHR ''/''"
  have all: "\<forall>y\<in>set (takeWhile ?P (rev h)). y = CHR ''/''"
    by (auto dest: set_takeWhileD)
  have tw: "takeWhile ?P (rev h) = replicate (length (takeWhile ?P (rev h))) CHR ''/''"
    using replicate_length_same [OF all] by simp
  have "rev h = takeWhile ?P (rev h) @ dropWhile ?P (rev h)"
    by simp
  then have "h = rev (dropWhile ?P (rev h)) @ rev (takeWhile ?P (rev h))"
    by (metis rev_append rev_rev_ident)
  then have h: "h = rstrip_slash h @ replicate (length (takeWhile ?P (rev h))) CHR ''/''"
    using tw by (simp add: rstrip_slash_def) (metis rev_replicate)
  have "length h = length (rstrip_slash h) + length (takeWhile ?P (rev h))"
    using arg_cong [OF h, of length] by simp
  with h show ?thesis by simp
qed

lemma path_split_leaf:
  "CHR ''/'' \<notin> set (snd (path_split p))"
  using rfind_tail_free [of "CHR ''/''" p] by (simp add: path_split_def Let_def)

lemma path_split_decompose:
  "p = fst (path_split p)
         @ replicate (length p - length (fst (path_split p)) - length (snd (path_split p))) CHR ''/''
         @ snd (path_split p)"
proof -
  let ?i = "nat (rfind CHR ''/'' p + 1)"
  show ?thesis
  proof (cases "take ?i p \<noteq> [] \<and> take ?i p \<noteq> replicate (length (take ?i p)) CHR ''/''")
    case True
    have fs: "fst (path_split p) = rstrip_slash (take ?i p)" "snd (path_split p) = drop ?i p"
      using True by (simp_all add: path_split_def Let_def)
    have len: "length p - length (rstrip_slash (take ?i p)) - length (drop ?i p)
                 = length (take ?i p) - length (rstrip_slash (take ?i p))"
      by simp
    have "take ?i p @ drop ?i p
            = (rstrip_slash (take ?i p)
                 @ replicate (length (take ?i p) - length (rstrip_slash (take ?i p))) CHR ''/'')
               @ drop ?i p"
      using rstrip_slash_decompose [of "take ?i p"] by simp
    then show ?thesis
      unfolding fs len by simp
  next
    case False
    then have fs: "fst (path_split p) = take ?i p" "snd (path_split p) = drop ?i p"
      by (auto simp: path_split_def Let_def)
    have "length p - length (take ?i p) - length (drop ?i p) = 0"
      by simp
    then show ?thesis
      unfolding fs by simp
  qed
qed

text \<open>
  Claim C7.  A call makes exactly one git call: a pull on the path at the branch when the
  path exists, and otherwise a clone of the repository at the branch, issued from the
  parent directory with the leaf name as \<^verbatim>\<open>repo_path\<close>.  Parent and leaf are the two parts
  of the path around its last run of slashes, and the leaf contains no slash.
\<close>

theorem assets_setup_pull_or_clone:
  "git_calls (assets_setup path_exists git p branch repo) =
     (if path_exists p then [Pull p branch]
      else [Clone (fst (path_split p)) repo (snd (path_split p)) branch])
   \<and> length (git_calls (assets_setup path_exists git p branch repo)) = 1
   \<and> p = fst (path_split p)
           @ replicate (length p - length (fst (path_split p)) - length (snd (path_split p)))
               CHR ''/''
           @ snd (path_split p)
   \<and> CHR ''/'' \<notin> set (snd (path_split p))"
proof -
  have calls: "git_calls (assets_setup path_exists git p branch repo) =
     (if path_exists p then [Pull p branch]
      else [Clone (fst (path_split p)) repo (snd (path_split p)) branch])"
    by (simp add: assets_setup_def Let_def case_prod_beta)
  have parts: "p = fst (path_split p)
           @ replicate (length p - length (fst (path_split p)) - length (snd (path_split p)))
               CHR ''/''
           @ snd (path_split p)"
    by (rule path_split_decompose)
  have leaf: "CHR ''/'' \<notin> set (snd (path_split p))"
    by (rule path_split_leaf)
  have one: "length (git_calls (assets_setup path_exists git p branch repo)) = 1"
    unfolding calls by simp
  from calls one parts leaf show ?thesis
    by (intro conjI)
qed

theorem assets_setup_pull_or_clone_witness:
  "git_calls (assets_setup (\<lambda>q. q = ''/r/assets/shared'') (\<lambda>c. True) ''/r/assets/shared''
                ''master'' ''git@example.org:shared.git'')
     = [Pull ''/r/assets/shared'' ''master'']
   \<and> git_calls (assets_setup (\<lambda>q. False) (\<lambda>c. True) ''/r/assets/shared''
                ''master'' ''git@example.org:shared.git'')
     = [Clone ''/r/assets'' ''git@example.org:shared.git'' ''shared'' ''master'']"
proof -
  have parts: "path_split ''/r/assets/shared'' = (''/r/assets'', ''shared'')"
    by (simp add: path_split_def rstrip_slash_def Let_def)
  from assets_setup_pull_or_clone [of "\<lambda>q. q = ''/r/assets/shared''" "\<lambda>c. True"
      "''/r/assets/shared''" "''master''" "''git@example.org:shared.git''"]
    assets_setup_pull_or_clone [of "\<lambda>q. False" "\<lambda>c. True"
      "''/r/assets/shared''" "''master''" "''git@example.org:shared.git''"]
  show ?thesis
    by (simp add: parts)
qed

end
